theory Spec2Isabelle
  imports Complex_Main
begin

section \<open>The nearest-plane indicator: stepper motor, LED ring, saved position\<close>

text \<open>
  A shallow embedding of \<^verbatim>\<open>planes.py\<close>. The module's globals (\<^verbatim>\<open>north\<close>,
  \<^verbatim>\<open>position\<close>, \<^verbatim>\<open>current_step\<close>, \<^verbatim>\<open>accumulated_error\<close>) and the hardware it
  drives are one record that every function takes and returns. Python's \<^verbatim>\<open>float\<close> is
  modelled by \<^typ>\<open>real\<close> (exact arithmetic, no rounding of the last bit), Python's
  \<^verbatim>\<open>int\<close> by \<^typ>\<open>int\<close>. \<^verbatim>\<open>time.sleep\<close> has no effect on the state and is left out.
\<close>

subsection \<open>State\<close>

type_synonym rgb = "nat \<times> nat \<times> nat"

type_synonym coil_state = "bool \<times> bool \<times> bool \<times> bool"

record state =
  north :: int
  position :: int
  current_step :: int
  accumulated_error :: real
  strip :: "rgb list"
  leds :: "rgb list"
  coils :: "coil_state list"
  files :: "string \<rightharpoonup> string"

text \<open>
  \<open>strip\<close> is the pixel buffer of the NeoPixel object and \<open>leds\<close> what the last
  \<^verbatim>\<open>strip.show()\<close> sent to the ring. \<open>coils\<close> is the history of
  \<^verbatim>\<open>motor_set_coils\<close> calls (the four GPIO outputs written together), latest last.
  \<open>files\<close> is the file system, a file name to its contents, as far as the tracker
  uses it (the image files of the display are left out with the display).
\<close>

definition LED_COUNT :: nat where
  "LED_COUNT = 24"

definition led_intensity :: nat where
  "led_intensity = 128"

definition revolution :: int where
  "revolution = 2038"

definition steps_per_degree :: real where
  "steps_per_degree = real_of_int revolution / 360"

definition steps :: int where
  "steps = 4"

definition seq :: "bool list list" where
  "seq = [[True, True, False, False],
          [False, True, True, False],
          [False, False, True, True],
          [True, False, False, True]]"

subsection \<open>The stepper motor\<close>

definition motor_set_coils :: "bool \<Rightarrow> bool \<Rightarrow> bool \<Rightarrow> bool \<Rightarrow> state \<Rightarrow> state" where
  "motor_set_coils a b c d s = s\<lparr>coils := coils s @ [(a, b, c, d)]\<rparr>"

text \<open>
  \<^verbatim>\<open>%\<close> with a positive right operand is the floored modulus in Python, as \<open>mod\<close> on
  \<^typ>\<open>int\<close> is, so \<open>seq\<close> is always read inside its four entries.
\<close>

definition motor_step :: "bool \<Rightarrow> state \<Rightarrow> state" where
  "motor_step clockwise s =
     (let cs = (if clockwise then current_step s + 1 else current_step s - 1);
          p = (if clockwise then position s + 1 else position s - 1);
          cs = cs mod steps;
          p = p mod revolution;
          s = s\<lparr>current_step := cs, position := p\<rparr>
      in motor_set_coils (seq ! nat cs ! 0) (seq ! nat cs ! 1)
                         (seq ! nat cs ! 2) (seq ! nat cs ! 3) s)"

definition motor_off :: "state \<Rightarrow> state" where
  "motor_off s = motor_set_coils False False False False s"

text \<open>The \<^verbatim>\<open>for i in range(count)\<close> loop of \<^verbatim>\<open>plane_rotate\<close>.\<close>

fun rotate_loop :: "nat \<Rightarrow> bool \<Rightarrow> state \<Rightarrow> state" where
  "rotate_loop 0 clockwise s = s"
| "rotate_loop (Suc n) clockwise s = rotate_loop n clockwise (motor_step clockwise s)"

text \<open>\<^verbatim>\<open>range(count)\<close> is empty for a negative count, as \<open>nat count\<close> is \<open>0\<close>.\<close>

definition plane_rotate :: "int \<Rightarrow> bool \<Rightarrow> state \<Rightarrow> state" where
  "plane_rotate count clockwise s = motor_off (rotate_loop (nat count) clockwise s)"

subsection \<open>Tracking\<close>

text \<open>\<^verbatim>\<open>int(x)\<close> on a float: truncation toward zero.\<close>

definition py_int :: "real \<Rightarrow> int" where
  "py_int x = (if x < 0 then \<lceil>x\<rceil> else \<lfloor>x\<rfloor>)"

definition plane_track :: "real \<Rightarrow> state \<Rightarrow> state" where
  "plane_track trak s =
     (let d = trak * steps_per_degree - real_of_int (position s);
          delta = py_int d;
          acc = accumulated_error s + (d - real_of_int delta);
          (delta, acc) =
            (if \<bar>acc\<bar> \<ge> 1
             then (let fix = py_int acc in (delta + fix, acc - real_of_int fix))
             else (delta, acc));
          s = s\<lparr>accumulated_error := acc\<rparr>;
          clockwise = delta > 0;
          delta = \<bar>delta\<bar>;
          (delta, clockwise) =
            (if real_of_int delta > real_of_int revolution / 2
             then (revolution - delta, \<not> clockwise)
             else (delta, clockwise))
      in plane_rotate delta clockwise s)"

text \<open>
  Names for three parts of \<^verbatim>\<open>plane_track\<close>: the signed step count after the error
  fix (lines 193 to 200), the accumulated error it leaves (lines 197 to 201), and the
  choice of the shorter way round (lines 203 to 208): the count and the direction given
  to \<^verbatim>\<open>plane_rotate\<close>.
\<close>

definition track_delta :: "real \<Rightarrow> state \<Rightarrow> int" where
  "track_delta trak s =
     (let d = trak * steps_per_degree - real_of_int (position s);
          delta = py_int d;
          acc = accumulated_error s + (d - real_of_int delta)
      in if \<bar>acc\<bar> \<ge> 1 then delta + py_int acc else delta)"

definition track_error :: "real \<Rightarrow> state \<Rightarrow> real" where
  "track_error trak s =
     (let d = trak * steps_per_degree - real_of_int (position s);
          delta = py_int d;
          acc = accumulated_error s + (d - real_of_int delta)
      in if \<bar>acc\<bar> \<ge> 1 then acc - real_of_int (py_int acc) else acc)"

definition shortest :: "int \<Rightarrow> int \<times> bool" where
  "shortest delta0 =
     (let clockwise = delta0 > 0;
          delta = \<bar>delta0\<bar>
      in if real_of_int delta > real_of_int revolution / 2
         then (revolution - delta, \<not> clockwise)
         else (delta, clockwise))"

text \<open>
  Two predicates on repeated calls with one bearing. The position \<open>p\<close> is within one
  step of the target \<open>trak * steps_per_degree\<close> on the circle of \<open>revolution\<close> steps;
  and the state of a tracker that has reached its target.
\<close>

definition near_target :: "real \<Rightarrow> int \<Rightarrow> bool" where
  "near_target trak p =
     (let e = trak * steps_per_degree - real_of_int p
      in \<bar>e\<bar> < 1 \<or> \<bar>e - real_of_int revolution\<bar> < 1 \<or> \<bar>e + real_of_int revolution\<bar> < 1)"

definition tracking :: "real \<Rightarrow> state \<Rightarrow> bool" where
  "tracking trak s =
     (0 \<le> position s \<and> position s < revolution \<and> \<bar>accumulated_error s\<bar> < 1
      \<and> near_target trak (position s))"

subsection \<open>The LED ring\<close>

text \<open>The \<^verbatim>\<open>for i in range(0, LED_COUNT)\<close> loop of \<^verbatim>\<open>strip_clear\<close>.\<close>

definition strip_clear :: "state \<Rightarrow> state" where
  "strip_clear s = s\<lparr>strip := fold (\<lambda>i px. px[i := (0, 0, 0)]) [0..<LED_COUNT] (strip s)\<rparr>"

definition strip_show :: "state \<Rightarrow> state" where
  "strip_show s = s\<lparr>leds := strip s\<rparr>"

text \<open>The index of the LED that \<^verbatim>\<open>spotted\<close> lights (line 367).\<close>

definition spotted_cell :: "int \<Rightarrow> real \<Rightarrow> int" where
  "spotted_cell n bearing = (n + py_int (real LED_COUNT * bearing / 360)) mod int LED_COUNT"

subsection \<open>The saved position\<close>

text \<open>\<^verbatim>\<open>'%d' % n\<close>: the decimal digits of an integer, with a minus sign when negative.\<close>

definition digit_char :: "nat \<Rightarrow> char" where
  "digit_char d = char_of (48 + d)"

function fmt_nat :: "nat \<Rightarrow> string" where
  "fmt_nat n = (if n < 10 then [digit_char n] else fmt_nat (n div 10) @ [digit_char (n mod 10)])"
  by pat_completeness auto
termination
  by (relation "measure (\<lambda>n. n)") auto

definition fmt_d :: "int \<Rightarrow> string" where
  "fmt_d i = (if i < 0 then CHR ''-'' # fmt_nat (nat (- i)) else fmt_nat (nat i))"

definition newline :: char where
  "newline = CHR 0x0A"

definition position_file :: string where
  "position_file = ''planes_position.py''"

definition position_lines :: "state \<Rightarrow> string list" where
  "position_lines s = [''north = '' @ fmt_d (north s) @ [newline],
                       ''position = '' @ fmt_d (position s) @ [newline]]"

text \<open>
  \<^verbatim>\<open>open(name, 'w')\<close> creates the file or truncates it to length zero. The lines given
  to \<^verbatim>\<open>writelines\<close> are buffered and reach the file when it is closed.
\<close>

definition py_open_w :: "string \<Rightarrow> state \<Rightarrow> state" where
  "py_open_w name s = s\<lparr>files := (files s)(name \<mapsto> [])\<rparr>"

definition py_writelines_close :: "string \<Rightarrow> string list \<Rightarrow> state \<Rightarrow> state" where
  "py_writelines_close name ls s =
     s\<lparr>files := (files s)(name \<mapsto> (case files s name of None \<Rightarrow> [] | Some old \<Rightarrow> old) @ concat ls)\<rparr>"

text \<open>
  The states of \<^verbatim>\<open>save_position\<close> after each of its file operations, in order: what
  another process reading the file system can see while it runs.
\<close>

definition save_position_steps :: "state \<Rightarrow> state list" where
  "save_position_steps s =
     (let s1 = py_open_w position_file s;
          s2 = py_writelines_close position_file (position_lines s1) s1
      in [s1, s2])"

definition save_position :: "state \<Rightarrow> state" where
  "save_position s = last (save_position_steps s)"

text \<open>
  \<^verbatim>\<open>from planes_position import north, position\<close> (line 26) runs the saved file. The
  reading below accepts a file of the shape \<^verbatim>\<open>save_position\<close> writes: two lines,
  \<^verbatim>\<open>north = <integer>\<close> and \<^verbatim>\<open>position = <integer>\<close>. A missing file or one of another
  shape is \<open>None\<close>: the import fails and the program does not start.
\<close>

definition is_digit :: "char \<Rightarrow> bool" where
  "is_digit c = (48 \<le> (of_char c :: nat) \<and> (of_char c :: nat) \<le> 57)"

definition nat_of_string :: "string \<Rightarrow> nat option" where
  "nat_of_string cs =
     (if cs \<noteq> [] \<and> list_all is_digit cs
      then Some (foldl (\<lambda>a c. 10 * a + (of_char c - 48)) 0 cs)
      else None)"

definition int_of_string :: "string \<Rightarrow> int option" where
  "int_of_string cs =
     (case cs of
        [] \<Rightarrow> None
      | c # r \<Rightarrow> if c = CHR ''-'' then map_option (\<lambda>n. - int n) (nat_of_string r)
                 else map_option int (nat_of_string cs))"

definition read_assignment :: "string \<Rightarrow> string \<Rightarrow> int option" where
  "read_assignment name line =
     (let lhs = name @ '' = ''
      in if take (length lhs) line = lhs then int_of_string (drop (length lhs) line) else None)"

definition import_position :: "(string \<rightharpoonup> string) \<Rightarrow> (int \<times> int) option" where
  "import_position fs =
     (case fs position_file of
        None \<Rightarrow> None
      | Some txt \<Rightarrow>
          (let l1 = takeWhile (\<lambda>c. c \<noteq> newline) txt;
               r1 = drop 1 (dropWhile (\<lambda>c. c \<noteq> newline) txt);
               l2 = takeWhile (\<lambda>c. c \<noteq> newline) r1;
               r2 = drop 1 (dropWhile (\<lambda>c. c \<noteq> newline) r1)
           in case (read_assignment ''north'' l1, read_assignment ''position'' l2) of
                (Some n, Some p) \<Rightarrow> if r2 = [] then Some (n, p) else None
              | _ \<Rightarrow> None))"

text \<open>
  The state when the module has run its first assignments (lines 26, 45, 131 and 186)
  and \<^verbatim>\<open>strip_spin\<close> (line 477): \<^verbatim>\<open>north\<close> and \<^verbatim>\<open>position\<close> as imported, a dark
  ring, no motor output yet.
\<close>

definition initial :: "int \<Rightarrow> int \<Rightarrow> (string \<rightharpoonup> string) \<Rightarrow> state" where
  "initial n p fs =
     \<lparr>north = n, position = p, current_step = 0, accumulated_error = 0,
      strip = replicate LED_COUNT (0, 0, 0), leds = replicate LED_COUNT (0, 0, 0),
      coils = [], files = fs\<rparr>"

definition boot :: "(string \<rightharpoonup> string) \<Rightarrow> state option" where
  "boot fs =
     (case import_position fs of
        None \<Rightarrow> None
      | Some (n, p) \<Rightarrow> Some (initial n p fs))"

subsection \<open>Calibration and start-up\<close>

text \<open>
  The blue button is an input: each \<^verbatim>\<open>GPIO.input(BUTTON_PIN)\<close> takes the next reading
  (\<open>True\<close> for \<^verbatim>\<open>GPIO.HIGH\<close>) from a list that the caller supplies. \<^verbatim>\<open>button_wait\<close> reads
  until the button is pressed; a list with no press in it stands for a button that is
  never pressed, and the wait does not return (\<open>None\<close>).
\<close>

fun button_wait :: "bool list \<Rightarrow> bool list option" where
  "button_wait [] = None"
| "button_wait (b # bs) = (if b then Some bs else button_wait bs)"

text \<open>
  The loops \<^verbatim>\<open>while (time.time() - c) < 5\<close> of the two calibration procedures read
  the button until five seconds pass with no press. The clock is not modelled: the
  loop is given the readings it takes before that happens, in order, and ends with them.
\<close>

fun strip_scan :: "bool list \<Rightarrow> nat \<Rightarrow> state \<Rightarrow> nat \<times> state" where
  "strip_scan [] i s = (i, s)"
| "strip_scan (b # bs) i s =
     (if b
      then (let s = s\<lparr>strip := (strip s)[i := (0, 0, 0)]\<rparr>;
                i = (i + 1) mod LED_COUNT;
                s = s\<lparr>strip := (strip s)[i := (0, 0, led_intensity)]\<rparr>;
                s = strip_show s
            in strip_scan bs i s)
      else strip_scan bs i s)"

definition calibrate_strip :: "bool list \<Rightarrow> state \<Rightarrow> (int \<times> state) option" where
  "calibrate_strip readings s =
     (let s = strip_clear s;
          s = strip_show s
      in case button_wait readings of
           None \<Rightarrow> None
         | Some rest \<Rightarrow>
             (let s = s\<lparr>strip := (strip s)[0 := (0, 0, led_intensity)]\<rparr>;
                  s = strip_show s;
                  (i, s) = strip_scan rest 0 s;
                  s = s\<lparr>strip := (strip s)[i := (led_intensity, 0, 0)]\<rparr>;
                  s = strip_show s
              in Some (int i, s)))"

fun plane_scan :: "bool list \<Rightarrow> state \<Rightarrow> state" where
  "plane_scan [] s = s"
| "plane_scan (b # bs) s = (if b then plane_scan bs (plane_rotate 4 True s) else plane_scan bs s)"

definition calibrate_plane :: "bool list \<Rightarrow> state \<Rightarrow> state option" where
  "calibrate_plane readings s =
     (case button_wait readings of
        None \<Rightarrow> None
      | Some rest \<Rightarrow> Some (plane_scan rest s))"

text \<open>
  Lines 479 to 483 of the module: the calibration at start-up. The two arguments are
  the button readings taken by \<^verbatim>\<open>calibrate_strip\<close> and by \<^verbatim>\<open>calibrate_plane\<close>.
\<close>

definition startup :: "bool list \<Rightarrow> bool list \<Rightarrow> state \<Rightarrow> state option" where
  "startup ring_readings plane_readings s =
     (if north s = - 1
      then (case calibrate_strip ring_readings s of
              None \<Rightarrow> None
            | Some (n, s) \<Rightarrow>
                (case calibrate_plane plane_readings (s\<lparr>north := n\<rparr>) of
                   None \<Rightarrow> None
                 | Some s \<Rightarrow> Some (save_position (s\<lparr>position := 0\<rparr>))))
      else Some s)"

subsection \<open>A plane is spotted\<close>

text \<open>
  \<^verbatim>\<open>spotted\<close> without the drawing of the screen (lines 372 to 417), which reads and
  writes none of the state modelled here: the ring (lines 366 to 370), the model
  aircraft and the saved position (lines 418 and 419).
\<close>

definition spotted :: "real \<Rightarrow> real \<Rightarrow> state \<Rightarrow> state" where
  "spotted bearing trak s =
     (let s = strip_clear s;
          s = s\<lparr>strip := (strip s)[nat (spotted_cell (north s) bearing) := (0, led_intensity, 0)]\<rparr>;
          s = strip_show s;
          s = plane_track trak s
      in save_position s)"

section \<open>Properties\<close>

subsection \<open>The motor\<close>

lemma position_motor_step:
  "position (motor_step cw s) = (if cw then position s + 1 else position s - 1) mod revolution"
  by (simp add: motor_step_def motor_set_coils_def Let_def)

lemma current_step_motor_step:
  "current_step (motor_step cw s) = (if cw then current_step s + 1 else current_step s - 1) mod steps"
  by (simp add: motor_step_def motor_set_coils_def Let_def)

lemma error_motor_step: "accumulated_error (motor_step cw s) = accumulated_error s"
  by (simp add: motor_step_def motor_set_coils_def Let_def)

lemma position_rotate_loop:
  "position (rotate_loop n cw s) =
     (if n = 0 then position s
      else (if cw then position s + int n else position s - int n) mod revolution)"
proof (induction n arbitrary: s)
  case 0
  show ?case by simp
next
  case (Suc n)
  show ?case
  proof (cases cw)
    case True
    have "(((position s + 1) mod revolution) + int n) mod revolution
          = (position s + 1 + int n) mod revolution"
      by (simp add: mod_add_left_eq)
    with True Suc show ?thesis
      by (simp add: position_motor_step add.assoc)
  next
    case False
    have "(((position s - 1) mod revolution) - int n) mod revolution
          = (position s - 1 - int n) mod revolution"
      by (simp add: mod_diff_left_eq)
    with False Suc show ?thesis
      by (simp add: position_motor_step algebra_simps)
  qed
qed

lemma error_rotate_loop: "accumulated_error (rotate_loop n cw s) = accumulated_error s"
  by (induction n arbitrary: s) (simp_all add: error_motor_step)

lemma position_motor_off: "position (motor_off s) = position s"
  by (simp add: motor_off_def motor_set_coils_def)

lemma error_motor_off: "accumulated_error (motor_off s) = accumulated_error s"
  by (simp add: motor_off_def motor_set_coils_def)

lemma position_plane_rotate:
  "position (plane_rotate count cw s) =
     (if count \<le> 0 then position s
      else (if cw then position s + count else position s - count) mod revolution)"
  by (simp add: plane_rotate_def position_motor_off position_rotate_loop)

lemma error_plane_rotate: "accumulated_error (plane_rotate count cw s) = accumulated_error s"
  by (simp add: plane_rotate_def error_motor_off error_rotate_loop)

lemma coils_rotate_loop: "length (coils (rotate_loop n cw s)) = length (coils s) + n"
  by (induction n arbitrary: s) (simp_all add: motor_step_def motor_set_coils_def Let_def)

lemma coils_plane_rotate:
  "length (coils (plane_rotate count cw s)) = length (coils s) + nat count + 1"
  by (simp add: plane_rotate_def motor_off_def motor_set_coils_def coils_rotate_loop)

lemma coils_motor_step:
  "coils (motor_step clockwise s)
     = coils s @ [[(True, True, False, False), (False, True, True, False),
                   (False, False, True, True), (True, False, False, True)]
                  ! nat ((if clockwise then current_step s + 1 else current_step s - 1) mod 4)]"
proof -
  define c where "c = (if clockwise then current_step s + 1 else current_step s - 1) mod 4"
  have "0 \<le> c" "c < 4" by (simp_all add: c_def)
  then consider "c = 0" | "c = 1" | "c = 2" | "c = 3" by linarith
  then have "coils (motor_step clockwise s)
     = coils s @ [[(True, True, False, False), (False, True, True, False),
                   (False, False, True, True), (True, False, False, True)] ! nat c]"
    by cases (simp_all add: motor_step_def motor_set_coils_def Let_def steps_def seq_def c_def [symmetric])
  then show ?thesis by (simp add: c_def)
qed

lemma four_steps:
  assumes "coils s = []" and "current_step s = 0"
  shows "coils (plane_rotate 4 True s)
         = [(False, True, True, False), (False, False, True, True), (True, False, False, True),
            (True, True, False, False), (False, False, False, False)]"
proof -
  define s1 where "s1 = motor_step True s"
  define s2 where "s2 = motor_step True s1"
  define s3 where "s3 = motor_step True s2"
  define s4 where "s4 = motor_step True s3"
  have 1: "coils s1 = [(False, True, True, False)] \<and> current_step s1 = 1"
    using assms by (simp add: s1_def coils_motor_step current_step_motor_step steps_def)
  have 2: "coils s2 = [(False, True, True, False), (False, False, True, True)] \<and> current_step s2 = 2"
    using 1 by (simp add: s2_def coils_motor_step current_step_motor_step steps_def)
  have 3: "coils s3 = [(False, True, True, False), (False, False, True, True), (True, False, False, True)]
           \<and> current_step s3 = 3"
    using 2 by (simp add: s3_def coils_motor_step current_step_motor_step steps_def)
  have 4: "coils s4 = [(False, True, True, False), (False, False, True, True), (True, False, False, True),
                       (True, True, False, False)]"
    using 3 by (simp add: s4_def coils_motor_step current_step_motor_step steps_def)
  have "rotate_loop (nat 4) True s = s4"
    by (simp add: eval_nat_numeral s1_def s2_def s3_def s4_def)
  with 4 show ?thesis
    by (simp add: plane_rotate_def motor_off_def motor_set_coils_def)
qed

lemma rotate_loop_funpow: "rotate_loop n cw s = (motor_step cw ^^ n) s"
proof (induction n arbitrary: s)
  case 0
  show ?case by simp
next
  case (Suc n)
  then show ?case by (simp add: funpow_swap1)
qed

lemma position_plane_rotate_steps:
  "position (plane_rotate count cw s) = position ((motor_step cw ^^ nat count) s)"
  by (simp add: plane_rotate_def position_motor_off rotate_loop_funpow)

lemma position_mod_range: "0 \<le> (p::int) mod revolution \<and> p mod revolution < revolution"
  by (simp add: revolution_def)

lemma position_plane_rotate_range:
  assumes "0 \<le> position s" and "position s < revolution"
  shows "0 \<le> position (plane_rotate count cw s) \<and> position (plane_rotate count cw s) < revolution"
  using assms position_mod_range by (simp add: position_plane_rotate)

lemma motor_step_frame:
  "north (motor_step cw s) = north s" "strip (motor_step cw s) = strip s"
  "leds (motor_step cw s) = leds s" "files (motor_step cw s) = files s"
  by (simp_all add: motor_step_def motor_set_coils_def Let_def)

lemma rotate_loop_frame:
  "north (rotate_loop n cw s) = north s \<and> strip (rotate_loop n cw s) = strip s
   \<and> leds (rotate_loop n cw s) = leds s \<and> files (rotate_loop n cw s) = files s"
  by (induction n arbitrary: s) (simp_all add: motor_step_frame)

lemma plane_rotate_frame:
  "north (plane_rotate count cw s) = north s" "strip (plane_rotate count cw s) = strip s"
  "leds (plane_rotate count cw s) = leds s" "files (plane_rotate count cw s) = files s"
  by (simp_all add: plane_rotate_def motor_off_def motor_set_coils_def rotate_loop_frame)

subsection \<open>Truncation and the shorter way round\<close>

lemma plane_track_parts:
  "plane_track trak s =
     (let (delta, clockwise) = shortest (track_delta trak s)
      in plane_rotate delta clockwise (s\<lparr>accumulated_error := track_error trak s\<rparr>))"
  by (simp add: plane_track_def track_delta_def track_error_def shortest_def Let_def split_def)

lemma py_int_frac: "\<bar>x - real_of_int (py_int x)\<bar> < 1"
  unfolding py_int_def by (simp; linarith)

lemma py_int_small: "\<bar>x\<bar> < 2 \<Longrightarrow> \<bar>py_int x\<bar> \<le> 1"
  unfolding py_int_def by (simp; linarith)

lemma py_int_bound: "\<bar>x\<bar> < real_of_int n \<Longrightarrow> \<bar>py_int x\<bar> < n"
  unfolding py_int_def by (simp; linarith)

lemma py_int_one: "1 \<le> x \<Longrightarrow> x < 2 \<Longrightarrow> py_int x = 1"
  unfolding py_int_def by (simp; linarith)

lemma py_int_minus_one: "x \<le> - 1 \<Longrightarrow> - 2 < x \<Longrightarrow> py_int x = - 1"
  unfolding py_int_def by (simp; linarith)

lemma py_int_zero: "\<bar>x\<bar> < 1 \<Longrightarrow> py_int x = 0"
  unfolding py_int_def by (simp; linarith)

lemma target_range:
  assumes "0 \<le> trak" "trak < 360"
  shows "0 \<le> trak * steps_per_degree \<and> trak * steps_per_degree < 2038"
  using assms by (simp add: steps_per_degree_def revolution_def)

lemma track_delta_bound:
  assumes p: "0 \<le> position s" "position s < revolution"
    and t: "0 \<le> trak" "trak < 360"
    and a: "\<bar>accumulated_error s\<bar> < 1"
  shows "\<bar>track_delta trak s\<bar> \<le> revolution"
proof -
  define d where "d = trak * steps_per_degree - real_of_int (position s)"
  define acc where "acc = accumulated_error s + (d - real_of_int (py_int d))"
  have td: "track_delta trak s = (if \<bar>acc\<bar> \<ge> 1 then py_int d + py_int acc else py_int d)"
    by (simp add: track_delta_def Let_def d_def acc_def)
  have "\<bar>d\<bar> < real_of_int 2038"
    using target_range [OF t] p unfolding d_def revolution_def by linarith
  then have 1: "\<bar>py_int d\<bar> < 2038" by (rule py_int_bound)
  have "\<bar>acc\<bar> < 2" using a py_int_frac [of d] by (simp add: acc_def)
  then have 2: "\<bar>py_int acc\<bar> \<le> 1" by (rule py_int_small)
  from 1 2 show ?thesis by (auto simp add: td revolution_def)
qed

lemma shortest_range:
  assumes "\<bar>delta\<bar> \<le> revolution"
  shows "0 \<le> fst (shortest delta) \<and> real_of_int (fst (shortest delta)) \<le> real_of_int revolution / 2"
  using assms by (simp add: shortest_def Let_def revolution_def)

lemma position_shortest:
  assumes p: "0 \<le> position s" "position s < revolution"
    and d: "\<bar>delta\<bar> \<le> revolution"
  shows "position (plane_rotate (fst (shortest delta)) (snd (shortest delta)) s)
         = (position s + delta) mod revolution"
proof -
  have triv: "position s mod revolution = position s"
    using p by simp
  consider (far_cw) "real_of_int \<bar>delta\<bar> > real_of_int revolution / 2" "delta > 0"
    | (far_ccw) "real_of_int \<bar>delta\<bar> > real_of_int revolution / 2" "\<not> delta > 0"
    | (near) "\<not> real_of_int \<bar>delta\<bar> > real_of_int revolution / 2"
    by blast
  then show ?thesis
  proof cases
    case far_cw
    then have sh: "shortest delta = (revolution - delta, False)"
      by (simp add: shortest_def Let_def)
    have eq: "(position s - (revolution - delta)) mod revolution = (position s + delta) mod revolution"
    proof -
      have "position s - (revolution - delta) = position s + delta - revolution" by simp
      then show ?thesis by (simp only: minus_mod_self2)
    qed
    show ?thesis
    proof (cases "revolution - delta \<le> 0")
      case True
      with d far_cw have "delta = revolution" by simp
      with triv have "(position s + delta) mod revolution = position s" by simp
      then show ?thesis using True by (simp add: sh position_plane_rotate)
    next
      case False
      then show ?thesis using eq by (simp add: sh position_plane_rotate)
    qed
  next
    case far_ccw
    then have sh: "shortest delta = (revolution + delta, True)"
      by (simp add: shortest_def Let_def)
    have eq: "(position s + (revolution + delta)) mod revolution = (position s + delta) mod revolution"
    proof -
      have "position s + (revolution + delta) = position s + delta + revolution" by simp
      then show ?thesis by (simp only: mod_add_self2)
    qed
    show ?thesis
    proof (cases "revolution + delta \<le> 0")
      case True
      with d far_ccw have "delta = - revolution" by simp
      with triv have "(position s + delta) mod revolution = position s" by simp
      then show ?thesis using True by (simp add: sh position_plane_rotate)
    next
      case False
      then show ?thesis using eq by (simp add: sh position_plane_rotate)
    qed
  next
    case near
    then have sh: "shortest delta = (\<bar>delta\<bar>, delta > 0)"
      by (simp add: shortest_def Let_def)
    show ?thesis
    proof (cases "delta > 0")
      case True
      then show ?thesis by (simp add: sh position_plane_rotate)
    next
      case False
      then show ?thesis using triv by (simp add: sh position_plane_rotate)
    qed
  qed
qed

lemma position_plane_track:
  assumes p: "0 \<le> position s" "position s < revolution"
    and d: "\<bar>track_delta trak s\<bar> \<le> revolution"
  shows "position (plane_track trak s) = (position s + track_delta trak s) mod revolution"
proof -
  let ?s = "s\<lparr>accumulated_error := track_error trak s\<rparr>"
  have "position (plane_track trak s)
        = position (plane_rotate (fst (shortest (track_delta trak s))) (snd (shortest (track_delta trak s))) ?s)"
    by (simp add: plane_track_parts split_def Let_def)
  also have "\<dots> = (position ?s + track_delta trak s) mod revolution"
    by (rule position_shortest) (use p d in simp_all)
  finally show ?thesis by simp
qed

lemma position_beyond_revolution:
  assumes "\<bar>delta\<bar> > revolution"
  shows "position (plane_rotate (fst (shortest delta)) (snd (shortest delta)) s) = position s"
proof -
  from assms have "real_of_int \<bar>delta\<bar> > real_of_int revolution / 2"
    by (simp add: revolution_def)
  then have "fst (shortest delta) = revolution - \<bar>delta\<bar>"
    by (simp add: shortest_def Let_def)
  with assms show ?thesis by (simp add: position_plane_rotate)
qed

lemma position_plane_track_beyond:
  assumes "\<bar>track_delta trak s\<bar> > revolution"
  shows "position (plane_track trak s) = position s"
proof -
  let ?s = "s\<lparr>accumulated_error := track_error trak s\<rparr>"
  have "position (plane_track trak s)
        = position (plane_rotate (fst (shortest (track_delta trak s))) (snd (shortest (track_delta trak s))) ?s)"
    by (simp add: plane_track_parts split_def Let_def)
  also have "\<dots> = position ?s"
    using assms by (rule position_beyond_revolution)
  finally show ?thesis by simp
qed

lemma position_plane_track_range:
  assumes "0 \<le> position s" and "position s < revolution"
  shows "0 \<le> position (plane_track trak s) \<and> position (plane_track trak s) < revolution"
proof -
  have "position (plane_track trak s)
        = position (plane_rotate (fst (shortest (track_delta trak s))) (snd (shortest (track_delta trak s)))
            (s\<lparr>accumulated_error := track_error trak s\<rparr>))"
    by (simp add: plane_track_parts split_def Let_def)
  moreover have "0 \<le> position (s\<lparr>accumulated_error := track_error trak s\<rparr>)"
    "position (s\<lparr>accumulated_error := track_error trak s\<rparr>) < revolution"
    using assms by simp_all
  ultimately show ?thesis
    using position_plane_rotate_range
      [of "s\<lparr>accumulated_error := track_error trak s\<rparr>"] by simp
qed

lemma position_plane_track_steps:
  "position (plane_track trak s)
     = position ((motor_step (snd (shortest (track_delta trak s)))
                    ^^ nat (fst (shortest (track_delta trak s)))) s)"
proof -
  have "position (plane_track trak s)
        = position (rotate_loop (nat (fst (shortest (track_delta trak s))))
            (snd (shortest (track_delta trak s))) (s\<lparr>accumulated_error := track_error trak s\<rparr>))"
    by (simp add: plane_track_parts split_def Let_def plane_rotate_def position_motor_off)
  also have "\<dots> = position (rotate_loop (nat (fst (shortest (track_delta trak s))))
            (snd (shortest (track_delta trak s))) s)"
    by (simp add: position_rotate_loop)
  finally show ?thesis by (simp add: rotate_loop_funpow)
qed

lemma error_plane_track: "accumulated_error (plane_track trak s) = track_error trak s"
  by (simp add: plane_track_parts split_def Let_def error_plane_rotate)

lemma track_error_bound: "\<bar>track_error trak s\<bar> < 1"
proof -
  define d where "d = trak * steps_per_degree - real_of_int (position s)"
  define acc where "acc = accumulated_error s + (d - real_of_int (py_int d))"
  have te: "track_error trak s = (if \<bar>acc\<bar> \<ge> 1 then acc - real_of_int (py_int acc) else acc)"
    by (simp add: track_error_def Let_def d_def acc_def)
  show ?thesis
    using py_int_frac [of acc] by (simp add: te)
qed

lemma plane_track_frame:
  "north (plane_track trak s) = north s" "strip (plane_track trak s) = strip s"
  "leds (plane_track trak s) = leds s" "files (plane_track trak s) = files s"
  by (simp_all add: plane_track_parts split_def Let_def plane_rotate_frame)

lemma track_delta_exact:
  assumes "trak * steps_per_degree - real_of_int (position s) = real_of_int k"
    and "\<bar>accumulated_error s\<bar> < 1"
  shows "track_delta trak s = k \<and> track_error trak s = accumulated_error s"
  using assms by (simp add: track_delta_def track_error_def Let_def py_int_def)

lemma track_residual:
  assumes a: "\<bar>accumulated_error s\<bar> < 1"
  shows "\<bar>trak * steps_per_degree - real_of_int (position s) - real_of_int (track_delta trak s)\<bar> < 1"
proof -
  define d where "d = trak * steps_per_degree - real_of_int (position s)"
  define f where "f = d - real_of_int (py_int d)"
  define acc where "acc = accumulated_error s + f"
  have td: "track_delta trak s = (if \<bar>acc\<bar> \<ge> 1 then py_int d + py_int acc else py_int d)"
    by (simp add: track_delta_def Let_def d_def acc_def f_def)
  have f: "\<bar>f\<bar> < 1" unfolding f_def by (rule py_int_frac)
  consider (up) "1 \<le> acc" | (down) "acc \<le> - 1" | (none) "\<bar>acc\<bar> < 1" by linarith
  then have "\<bar>d - real_of_int (track_delta trak s)\<bar> < 1"
  proof cases
    case up
    with a f have "acc < 2" "0 < f" by (simp_all add: acc_def)
    with up have "py_int acc = 1" by (simp add: py_int_one)
    with up f \<open>0 < f\<close> show ?thesis by (simp add: td f_def)
  next
    case down
    with a f have "- 2 < acc" "f < 0" by (simp_all add: acc_def)
    with down have "py_int acc = - 1" by (simp add: py_int_minus_one)
    with down f \<open>f < 0\<close> show ?thesis by (simp add: td f_def)
  next
    case none
    with f show ?thesis by (simp add: td f_def)
  qed
  then show ?thesis by (simp add: d_def)
qed

subsection \<open>Repeated calls with one bearing\<close>

lemma tracking_first:
  assumes p: "0 \<le> position s" "position s < revolution"
    and t: "0 \<le> trak" "trak < 360"
    and a: "\<bar>accumulated_error s\<bar> < 1"
  shows "tracking trak (plane_track trak s)"
proof -
  define q where "q = position s + track_delta trak s"
  have db: "\<bar>track_delta trak s\<bar> \<le> revolution"
    using p t a by (rule track_delta_bound)
  have pos: "position (plane_track trak s) = q mod revolution"
    unfolding q_def using p db by (rule position_plane_track)
  have res: "\<bar>trak * steps_per_degree - real_of_int q\<bar> < 1"
    using track_residual [OF a, of trak] by (simp add: q_def algebra_simps)
  have tr: "0 \<le> trak * steps_per_degree" "trak * steps_per_degree < 2038"
    using target_range [OF t] by simp_all
  from res tr have "0 \<le> q" "q \<le> 2038" by linarith+
  have near: "near_target trak (q mod revolution)"
  proof (cases "q = 2038")
    case True
    then have "q mod revolution = 0" by (simp add: revolution_def)
    with res True show ?thesis by (simp add: near_target_def Let_def revolution_def)
  next
    case False
    with \<open>0 \<le> q\<close> \<open>q \<le> 2038\<close> have "q mod revolution = q" by (simp add: revolution_def)
    with res show ?thesis by (simp add: near_target_def Let_def)
  qed
  show ?thesis
    using near position_mod_range [of q]
    by (simp add: tracking_def pos error_plane_track track_error_bound)
qed

lemma tracking_step:
  assumes t: "0 \<le> trak" "trak < 360" and inv: "tracking trak s"
  shows "tracking trak (plane_track trak s)"
proof -
  from inv have "0 \<le> position s" "position s < revolution" "\<bar>accumulated_error s\<bar> < 1"
    by (simp_all add: tracking_def)
  with t show ?thesis by (simp add: tracking_first)
qed

lemma tracking_funpow:
  assumes t: "0 \<le> trak" "trak < 360" and inv: "tracking trak s"
  shows "tracking trak ((plane_track trak ^^ n) s)"
proof (induction n)
  case 0
  from inv show ?case by simp
next
  case (Suc n)
  with t show ?case by (simp add: tracking_step)
qed

lemma tracking_one_step:
  assumes t: "0 \<le> trak" "trak < 360" and inv: "tracking trak s"
  shows "0 \<le> fst (shortest (track_delta trak s)) \<and> fst (shortest (track_delta trak s)) \<le> 1"
proof -
  define d where "d = trak * steps_per_degree - real_of_int (position s)"
  define f where "f = d - real_of_int (py_int d)"
  define acc where "acc = accumulated_error s + f"
  have td: "track_delta trak s = (if \<bar>acc\<bar> \<ge> 1 then py_int d + py_int acc else py_int d)"
    by (simp add: track_delta_def Let_def d_def acc_def f_def)
  from inv have p: "0 \<le> position s" "position s < 2038" and a: "\<bar>accumulated_error s\<bar> < 1"
    and near: "\<bar>d\<bar> < 1 \<or> \<bar>d - 2038\<bar> < 1 \<or> \<bar>d + 2038\<bar> < 1"
    by (simp_all add: tracking_def near_target_def Let_def d_def revolution_def)
  have tr: "0 \<le> trak * steps_per_degree" "trak * steps_per_degree < 2038"
    using target_range [OF t] by simp_all
  have drange: "- 2037 \<le> d" "d < 2038"
    using tr p unfolding d_def by linarith+
  from near drange consider (here) "\<bar>d\<bar> < 1" | (wrap) "2037 < d" "d < 2038" by linarith
  then show ?thesis
  proof cases
    case here
    then have 0: "py_int d = 0" by (rule py_int_zero)
    with here a have "\<bar>acc\<bar> < 2" by (simp add: acc_def f_def)
    then have "\<bar>py_int acc\<bar> \<le> 1" by (rule py_int_small)
    then have "\<bar>track_delta trak s\<bar> \<le> 1" by (simp add: td 0)
    then show ?thesis by (simp add: shortest_def Let_def revolution_def)
  next
    case wrap
    then have fl: "py_int d = 2037" unfolding py_int_def by (simp; linarith)
    with wrap a have acc: "- 1 < acc" "acc < 2" by (simp_all add: acc_def f_def)
    have "track_delta trak s = 2037 \<or> track_delta trak s = 2038"
    proof (cases "\<bar>acc\<bar> \<ge> 1")
      case True
      with acc have "1 \<le> acc" by linarith
      with acc have "py_int acc = 1" by (simp add: py_int_one)
      with True show ?thesis by (simp add: td fl)
    next
      case False
      then show ?thesis by (simp add: td fl)
    qed
    then show ?thesis by (auto simp add: shortest_def Let_def revolution_def)
  qed
qed

lemma step_value:
  assumes "position s = p" and "accumulated_error s = a"
  shows "track_delta 1 s =
          (let d = 1019 / 180 - real_of_int p; acc = a + (d - real_of_int (py_int d))
           in if \<bar>acc\<bar> \<ge> 1 then py_int d + py_int acc else py_int d)"
    and "track_error 1 s =
          (let d = 1019 / 180 - real_of_int p; acc = a + (d - real_of_int (py_int d))
           in if \<bar>acc\<bar> \<ge> 1 then acc - real_of_int (py_int acc) else acc)"
  using assms by (simp_all add: track_delta_def track_error_def steps_per_degree_def revolution_def Let_def)

lemma step_pos:
  assumes "position s = p" and "accumulated_error s = a"
    and "0 \<le> p" and "p < 2038"
    and "(let d = 1019 / 180 - real_of_int p; acc = a + (d - real_of_int (py_int d))
           in if \<bar>acc\<bar> \<ge> 1 then py_int d + py_int acc else py_int d) = k"
    and "\<bar>k\<bar> \<le> 2038"
    and "(let d = 1019 / 180 - real_of_int p; acc = a + (d - real_of_int (py_int d))
           in if \<bar>acc\<bar> \<ge> 1 then acc - real_of_int (py_int acc) else acc) = a'"
    and "(p + k) mod 2038 = p'"
  shows "position (plane_track 1 s) = p' \<and> accumulated_error (plane_track 1 s) = a'"
  using assms position_plane_track [of s 1] step_value [of s p a]
  by (simp add: error_plane_track revolution_def)

subsection \<open>Writing and reading the saved position\<close>

declare fmt_nat.simps [simp del]

lemma of_char_digit_char: "d < 10 \<Longrightarrow> (of_char (digit_char d) :: nat) = 48 + d"
  by (simp add: digit_char_def)

lemma is_digit_digit_char: "d < 10 \<Longrightarrow> is_digit (digit_char d)"
  by (simp add: is_digit_def of_char_digit_char)

lemma fmt_nat_digits: "fmt_nat n \<noteq> [] \<and> list_all is_digit (fmt_nat n)"
proof (induction n rule: fmt_nat.induct)
  case (1 n)
  show ?case
  proof (cases "n < 10")
    case True
    then show ?thesis by (simp add: fmt_nat.simps [of n] is_digit_digit_char)
  next
    case False
    with 1 show ?thesis by (simp add: fmt_nat.simps [of n] is_digit_digit_char)
  qed
qed

lemma fmt_nat_value: "foldl (\<lambda>a c. 10 * a + (of_char c - 48)) 0 (fmt_nat n) = n"
proof (induction n rule: fmt_nat.induct)
  case (1 n)
  show ?case
  proof (cases "n < 10")
    case True
    then show ?thesis by (simp add: fmt_nat.simps [of n] of_char_digit_char)
  next
    case False
    with 1 show ?thesis by (simp add: fmt_nat.simps [of n] of_char_digit_char)
  qed
qed

lemma nat_of_string_fmt_nat: "nat_of_string (fmt_nat n) = Some n"
  by (simp add: nat_of_string_def fmt_nat_digits fmt_nat_value)

lemma is_digit_not_minus: "is_digit c \<Longrightarrow> c \<noteq> CHR ''-''"
  by (auto simp add: is_digit_def)

lemma is_digit_not_newline: "is_digit c \<Longrightarrow> c \<noteq> newline"
  by (auto simp add: is_digit_def newline_def)

lemma int_of_string_fmt_d: "int_of_string (fmt_d i) = Some i"
proof (cases "i < 0")
  case True
  then show ?thesis by (simp add: int_of_string_def fmt_d_def nat_of_string_fmt_nat)
next
  case False
  obtain c r where cr: "fmt_nat (nat i) = c # r"
    using fmt_nat_digits [of "nat i"] by (cases "fmt_nat (nat i)") simp_all
  with fmt_nat_digits [of "nat i"] have "is_digit c" by simp
  then have "c \<noteq> CHR ''-''" by (rule is_digit_not_minus)
  moreover have "nat_of_string (c # r) = Some (nat i)"
    using nat_of_string_fmt_nat [of "nat i"] by (simp add: cr)
  ultimately show ?thesis using False by (simp add: int_of_string_def fmt_d_def cr)
qed

lemma newline_not_in_fmt_d: "newline \<notin> set (fmt_d i)"
proof -
  have "newline \<notin> set (fmt_nat n)" for n
    using fmt_nat_digits [of n] is_digit_not_newline by (auto simp add: list_all_iff)
  then show ?thesis by (simp add: fmt_d_def newline_def)
qed

lemma read_assignment_line: "read_assignment name (name @ '' = '' @ fmt_d i) = Some i"
  by (simp add: read_assignment_def Let_def int_of_string_fmt_d)

lemma takeWhile_line:
  assumes "newline \<notin> set l"
  shows "takeWhile (\<lambda>c. c \<noteq> newline) (l @ newline # r) = l"
    and "drop 1 (dropWhile (\<lambda>c. c \<noteq> newline) (l @ newline # r)) = r"
proof -
  have all: "\<And>c. c \<in> set l \<Longrightarrow> c \<noteq> newline" using assms by auto
  show "takeWhile (\<lambda>c. c \<noteq> newline) (l @ newline # r) = l"
    using all by (simp add: takeWhile_append2)
  show "drop 1 (dropWhile (\<lambda>c. c \<noteq> newline) (l @ newline # r)) = r"
    using all by (simp add: dropWhile_append2)
qed

lemma import_position_saved:
  assumes "fs position_file
           = Some ((''north = '' @ fmt_d n) @ newline # (''position = '' @ fmt_d p) @ newline # [])"
  shows "import_position fs = Some (n, p)"
proof -
  have n1: "newline \<notin> set (''north = '' @ fmt_d n)"
    using newline_not_in_fmt_d [of n] by (simp add: newline_def)
  have n2: "newline \<notin> set (''position = '' @ fmt_d p)"
    using newline_not_in_fmt_d [of p] by (simp add: newline_def)
  note r1 = read_assignment_line [of "''north''" n, simplified]
  note r2 = read_assignment_line [of "''position''" p, simplified]
  show ?thesis
    unfolding import_position_def assms option.case Let_def
    by (simp only: takeWhile_line [OF n1] takeWhile_line [OF n2])
       (simp add: r1 r2)
qed

lemma fmt_d_examples: "fmt_d 3 = ''3''" "fmt_d 5 = ''5''"
  by code_simp+

lemma save_position_steps_eq:
  "save_position_steps s =
     [s\<lparr>files := (files s)(position_file \<mapsto> [])\<rparr>,
      s\<lparr>files := (files s)(position_file \<mapsto> concat (position_lines s))\<rparr>]"
  by (simp add: save_position_steps_def py_open_w_def py_writelines_close_def Let_def
      position_lines_def)

lemma save_position_eq:
  "save_position s = s\<lparr>files := (files s)(position_file \<mapsto> concat (position_lines s))\<rparr>"
  by (simp add: save_position_def save_position_steps_eq)

lemma import_position_save: "import_position (files (save_position s)) = Some (north s, position s)"
  by (rule import_position_saved) (simp add: save_position_eq position_lines_def)

subsection \<open>The ring\<close>

lemma fold_clear:
  "n \<le> length px \<Longrightarrow> fold (\<lambda>i px. px[i := c]) [0..<n] px = replicate n c @ drop n px"
proof (induction n)
  case 0
  show ?case by simp
next
  case (Suc n)
  then have "fold (\<lambda>i px. px[i := c]) [0..<Suc n] px = (replicate n c @ drop n px)[n := c]"
    by simp
  also have "\<dots> = replicate n c @ (drop n px)[0 := c]"
    by (simp add: list_update_append)
  also have "(drop n px)[0 := c] = c # drop (Suc n) px"
    using Suc.prems by (simp add: Cons_nth_drop_Suc [symmetric])
  finally show ?case by (simp add: replicate_append_same)
qed

lemma strip_clear_dark:
  "length (strip s) = LED_COUNT \<Longrightarrow> strip (strip_clear s) = replicate LED_COUNT (0, 0, 0)"
  by (simp add: strip_clear_def fold_clear)

lemma spotted_cell_range: "0 \<le> spotted_cell n b \<and> spotted_cell n b < int LED_COUNT"
  by (simp add: spotted_cell_def LED_COUNT_def)

lemma leds_spotted:
  assumes "length (strip s) = LED_COUNT"
  shows "leds (spotted bearing trak s)
         = (replicate LED_COUNT (0, 0, 0))[nat (spotted_cell (north s) bearing) := (0, led_intensity, 0)]"
    and "strip (spotted bearing trak s) = leds (spotted bearing trak s)"
proof -
  have n: "north (strip_clear s) = north s" by (simp add: strip_clear_def)
  show "leds (spotted bearing trak s)
         = (replicate LED_COUNT (0, 0, 0))[nat (spotted_cell (north s) bearing) := (0, led_intensity, 0)]"
    by (simp add: spotted_def Let_def save_position_eq plane_track_frame strip_show_def
        strip_clear_dark [OF assms] n)
  show "strip (spotted bearing trak s) = leds (spotted bearing trak s)"
    by (simp add: spotted_def Let_def save_position_eq plane_track_frame strip_show_def)
qed

lemma position_spotted: "position (spotted bearing trak s) = position (plane_track trak s)"
proof -
  define r where "r = strip_show ((strip_clear s)
      \<lparr>strip := (strip (strip_clear s))[nat (spotted_cell (north (strip_clear s)) bearing) := (0, led_intensity, 0)]\<rparr>)"
  have sp: "spotted bearing trak s = save_position (plane_track trak r)"
    by (simp add: spotted_def Let_def r_def)
  have same: "position r = position s" "accumulated_error r = accumulated_error s"
    by (simp_all add: r_def strip_show_def strip_clear_def)
  then have td: "track_delta trak r = track_delta trak s"
    by (simp add: track_delta_def)
  have "position (plane_track trak r)
        = position (plane_rotate (fst (shortest (track_delta trak r))) (snd (shortest (track_delta trak r))) r)"
    by (simp add: plane_track_parts split_def Let_def position_plane_rotate)
  also have "\<dots> = position (plane_rotate (fst (shortest (track_delta trak s))) (snd (shortest (track_delta trak s))) s)"
    by (simp add: td position_plane_rotate same)
  also have "\<dots> = position (plane_track trak s)"
    by (simp add: plane_track_parts split_def Let_def position_plane_rotate)
  finally show ?thesis by (simp add: sp save_position_eq)
qed

lemma spotted_saved:
  "import_position (files (spotted bearing trak s)) = Some (north s, position (plane_track trak s))"
proof -
  define r where "r = strip_show ((strip_clear s)
      \<lparr>strip := (strip (strip_clear s))[nat (spotted_cell (north (strip_clear s)) bearing) := (0, led_intensity, 0)]\<rparr>)"
  have sp: "spotted bearing trak s = save_position (plane_track trak r)"
    by (simp add: spotted_def Let_def r_def)
  have "north (plane_track trak r) = north s"
    by (simp add: plane_track_frame r_def strip_show_def strip_clear_def)
  moreover have "position (plane_track trak r) = position (plane_track trak s)"
    using position_spotted [of bearing trak s] by (simp add: sp save_position_eq)
  ultimately show ?thesis
    using import_position_save [of "plane_track trak r"] by (simp add: sp)
qed

subsection \<open>Calibration\<close>

lemma button_wait_None: "(button_wait bs = None) = (True \<notin> set bs)"
  by (induction bs) auto

lemma strip_show_frame:
  "north (strip_show s) = north s" "position (strip_show s) = position s"
  "files (strip_show s) = files s" "coils (strip_show s) = coils s"
  "current_step (strip_show s) = current_step s"
  by (simp_all add: strip_show_def)

lemma strip_clear_frame:
  "north (strip_clear s) = north s" "position (strip_clear s) = position s"
  "files (strip_clear s) = files s" "coils (strip_clear s) = coils s"
  "current_step (strip_clear s) = current_step s"
  "accumulated_error (strip_clear s) = accumulated_error s"
  by (simp_all add: strip_clear_def)

lemma strip_scan_frame:
  "north (snd (strip_scan bs i s)) = north s \<and> position (snd (strip_scan bs i s)) = position s
   \<and> files (snd (strip_scan bs i s)) = files s \<and> coils (snd (strip_scan bs i s)) = coils s
   \<and> current_step (snd (strip_scan bs i s)) = current_step s"
  by (induction bs i s rule: strip_scan.induct) (simp_all add: Let_def strip_show_frame)

lemma strip_scan_index: "i < LED_COUNT \<Longrightarrow> fst (strip_scan bs i s) < LED_COUNT"
  by (induction bs i s rule: strip_scan.induct) (simp_all add: Let_def LED_COUNT_def)

lemma calibrate_strip_None: "(calibrate_strip r s = None) = (True \<notin> set r)"
  by (simp add: calibrate_strip_def Let_def split_def button_wait_None [symmetric]
      split: option.splits)

lemma calibrate_strip_Some:
  assumes "calibrate_strip r s = Some (n, s1)"
  shows "0 \<le> n \<and> n < int LED_COUNT \<and> position s1 = position s \<and> files s1 = files s
         \<and> coils s1 = coils s \<and> current_step s1 = current_step s"
proof -
  from assms obtain rest where rest: "button_wait r = Some rest"
    by (cases "button_wait r") (simp_all add: calibrate_strip_def Let_def)
  define s0 where "s0 = strip_show
     ((strip_show (strip_clear s))\<lparr>strip := (strip (strip_show (strip_clear s)))[0 := (0, 0, led_intensity)]\<rparr>)"
  from assms rest have n: "n = int (fst (strip_scan rest 0 s0))"
    and s1: "s1 = strip_show ((snd (strip_scan rest 0 s0))
                \<lparr>strip := (strip (snd (strip_scan rest 0 s0)))[fst (strip_scan rest 0 s0) := (led_intensity, 0, 0)]\<rparr>)"
    by (simp_all add: calibrate_strip_def Let_def split_def s0_def)
  have "fst (strip_scan rest 0 s0) < LED_COUNT"
    by (rule strip_scan_index) (simp add: LED_COUNT_def)
  moreover have "position s0 = position s" "files s0 = files s" "coils s0 = coils s"
    "current_step s0 = current_step s"
    by (simp_all add: s0_def strip_show_frame strip_clear_frame)
  ultimately show ?thesis
    using strip_scan_frame [of rest 0 s0] by (simp add: n s1 strip_show_frame)
qed

lemma plane_scan_frame: "north (plane_scan bs s) = north s \<and> files (plane_scan bs s) = files s"
  by (induction bs s rule: plane_scan.induct) (simp_all add: plane_rotate_frame)

lemma calibrate_plane_None: "(calibrate_plane r s = None) = (True \<notin> set r)"
  by (simp add: calibrate_plane_def button_wait_None [symmetric] split: option.splits)

lemma calibrate_plane_Some:
  assumes "calibrate_plane r s = Some s2"
  shows "north s2 = north s \<and> files s2 = files s"
  using assms plane_scan_frame
  by (auto simp add: calibrate_plane_def split: option.splits)

lemma startup_skip: "north s \<noteq> - 1 \<Longrightarrow> startup r1 r2 s = Some s"
  by (simp add: startup_def)

lemma startup_None:
  assumes "north s = - 1"
  shows "(startup r1 r2 s = None) = (True \<notin> set r1 \<or> True \<notin> set r2)"
proof (cases "calibrate_strip r1 s")
  case None
  then have "True \<notin> set r1" by (simp add: calibrate_strip_None)
  with None assms show ?thesis by (simp add: startup_def)
next
  case (Some p)
  obtain n s1 where p: "p = (n, s1)" by (cases p)
  from Some have r1: "True \<in> set r1"
    using calibrate_strip_None [of r1 s] by simp
  have "(startup r1 r2 s = None) = (calibrate_plane r2 (s1\<lparr>north := n\<rparr>) = None)"
    using assms Some by (simp add: startup_def p split: option.splits)
  with r1 show ?thesis by (simp add: calibrate_plane_None)
qed

lemma startup_runs:
  assumes "north s = - 1" and "startup r1 r2 s = Some s'"
  shows "\<exists>n s1 s2. calibrate_strip r1 s = Some (n, s1)
           \<and> calibrate_plane r2 (s1\<lparr>north := n\<rparr>) = Some s2
           \<and> s' = save_position (s2\<lparr>position := 0\<rparr>)"
  using assms by (auto simp add: startup_def split: option.splits)

lemma startup_calibrated:
  assumes "north s = - 1" and "startup r1 r2 s = Some s'"
  shows "0 \<le> north s' \<and> north s' < int LED_COUNT \<and> position s' = 0
         \<and> import_position (files s') = Some (north s', 0)"
proof -
  from startup_runs [OF assms] obtain n s1 s2 where
    cs: "calibrate_strip r1 s = Some (n, s1)"
    and cp: "calibrate_plane r2 (s1\<lparr>north := n\<rparr>) = Some s2"
    and s': "s' = save_position (s2\<lparr>position := 0\<rparr>)"
    by blast
  from calibrate_plane_Some [OF cp] have "north s2 = n" by simp
  with calibrate_strip_Some [OF cs] have "0 \<le> north s2" "north s2 < int LED_COUNT" by simp_all
  moreover have "north s' = north s2" "position s' = 0"
    by (simp_all add: s' save_position_eq)
  moreover have "import_position (files s') = Some (north s2, 0)"
    using import_position_save [of "s2\<lparr>position := 0\<rparr>"] by (simp add: s')
  ultimately show ?thesis by simp
qed

lemma position_startup:
  assumes "startup r1 r2 s = Some s'"
  shows "position s' = (if north s = - 1 then 0 else position s)"
proof (cases "north s = - 1")
  case True
  with startup_calibrated [OF True assms] show ?thesis by simp
next
  case False
  with assms show ?thesis by (simp add: startup_def)
qed

lemma startup_one_press:
  assumes n: "north s = - 1" and c: "coils s = []" and cs: "current_step s = 0"
  shows "map_option (\<lambda>s. (coils s, position s)) (startup [True] [True, True] s)
     = Some ([(False, True, True, False), (False, False, True, True), (True, False, False, True),
              (True, True, False, False), (False, False, False, False)], 0)"
proof -
  have "calibrate_strip [True] s \<noteq> None"
    by (simp add: calibrate_strip_None)
  then obtain k s1 where k: "calibrate_strip [True] s = Some (k, s1)"
    by (cases "calibrate_strip [True] s") auto
  have s1: "coils s1 = []" "current_step s1 = 0"
    using calibrate_strip_Some [OF k] c cs by simp_all
  have cp: "calibrate_plane [True, True] (s1\<lparr>north := k\<rparr>) = Some (plane_rotate 4 True (s1\<lparr>north := k\<rparr>))"
    by (simp add: calibrate_plane_def)
  have st: "startup [True] [True, True] s
            = Some (save_position ((plane_rotate 4 True (s1\<lparr>north := k\<rparr>))\<lparr>position := 0\<rparr>))"
    using n by (simp add: startup_def k cp)
  have "coils (plane_rotate 4 True (s1\<lparr>north := k\<rparr>))
         = [(False, True, True, False), (False, False, True, True), (True, False, False, True),
            (True, True, False, False), (False, False, False, False)]"
    by (rule four_steps) (simp_all add: s1)
  then show ?thesis by (simp add: st save_position_eq)
qed

section \<open>The claims\<close>

text \<open>
  C1. For a position in \<open>[0, revolution)\<close> with \<open>revolution = 2038\<close>, a bearing in
  \<open>[0, 360)\<close> and an accumulated error in \<open>(-1, 1)\<close>, the step count that
  \<^verbatim>\<open>plane_track\<close> passes to \<^verbatim>\<open>plane_rotate\<close> (after truncation, error fix, absolute
  value and the choice of the shorter way round) lies between \<open>0\<close> and
  \<open>revolution / 2\<close>, and the motor is stepped exactly that many times before it is
  switched off.
\<close>

theorem track_half_revolution:
  assumes "0 \<le> position s" and "position s < revolution"
    and "0 \<le> trak" and "trak < 360"
    and "\<bar>accumulated_error s\<bar> < 1"
  shows "plane_track trak s
           = plane_rotate (fst (shortest (track_delta trak s))) (snd (shortest (track_delta trak s)))
               (s\<lparr>accumulated_error := track_error trak s\<rparr>)
       \<and> 0 \<le> fst (shortest (track_delta trak s))
       \<and> real_of_int (fst (shortest (track_delta trak s))) \<le> real_of_int revolution / 2
       \<and> length (coils (plane_track trak s))
           = length (coils s) + nat (fst (shortest (track_delta trak s))) + 1"
proof -
  have "\<bar>track_delta trak s\<bar> \<le> revolution"
    using assms by (rule track_delta_bound)
  then have "0 \<le> fst (shortest (track_delta trak s))
       \<and> real_of_int (fst (shortest (track_delta trak s))) \<le> real_of_int revolution / 2"
    by (rule shortest_range)
  moreover have "length (coils (plane_track trak s))
           = length (coils s) + nat (fst (shortest (track_delta trak s))) + 1"
    by (simp add: plane_track_parts split_def Let_def coils_plane_rotate)
  moreover have "plane_track trak s
           = plane_rotate (fst (shortest (track_delta trak s))) (snd (shortest (track_delta trak s)))
               (s\<lparr>accumulated_error := track_error trak s\<rparr>)"
    by (simp add: plane_track_parts split_def Let_def)
  ultimately show ?thesis by blast
qed

theorem track_half_revolution_witness:
  "0 \<le> fst (shortest (track_delta 270 (initial 0 5 Map.empty)))
   \<and> real_of_int (fst (shortest (track_delta 270 (initial 0 5 Map.empty)))) \<le> real_of_int revolution / 2
   \<and> length (coils (plane_track 270 (initial 0 5 Map.empty)))
       = length (coils (initial 0 5 Map.empty))
         + nat (fst (shortest (track_delta 270 (initial 0 5 Map.empty)))) + 1"
proof -
  have "0 \<le> position (initial 0 5 Map.empty)" "position (initial 0 5 Map.empty) < revolution"
    "0 \<le> (270 :: real)" "(270 :: real) < 360" "\<bar>accumulated_error (initial 0 5 Map.empty)\<bar> < 1"
    by (simp_all add: initial_def revolution_def)
  from track_half_revolution [OF this] show ?thesis by blast
qed

text \<open>
  C2. From an accumulated error in \<open>(-1, 1)\<close>, one call of \<^verbatim>\<open>plane_track\<close> with any
  bearing, and any sequence of calls, leaves the accumulated error in \<open>(-1, 1)\<close>.
\<close>

theorem error_stays_below_one:
  assumes "\<bar>accumulated_error s\<bar> < 1"
  shows "\<bar>accumulated_error (plane_track trak s)\<bar> < 1
       \<and> \<bar>accumulated_error (fold plane_track traks s)\<bar> < 1"
proof
  show "\<bar>accumulated_error (plane_track trak s)\<bar> < 1"
    by (simp add: error_plane_track track_error_bound)
  show "\<bar>accumulated_error (fold plane_track traks s)\<bar> < 1"
    using assms
  proof (induction traks arbitrary: s)
    case Nil
    then show ?case by simp
  next
    case (Cons t traks)
    have "\<bar>accumulated_error (plane_track t s)\<bar> < 1"
      by (simp add: error_plane_track track_error_bound)
    then show ?case by (simp add: Cons.IH)
  qed
qed

theorem error_stays_below_one_witness:
  "\<bar>accumulated_error (plane_track 1 (initial 0 0 Map.empty))\<bar> < 1
   \<and> \<bar>accumulated_error (fold plane_track [1, 200, 359] (initial 0 0 Map.empty))\<bar> < 1"
  using error_stays_below_one [of "initial 0 0 Map.empty" 1 "[1, 200, 359]"]
  by (simp add: initial_def)

text \<open>
  C3, as the code has it. When the strip has its \<open>LED_COUNT\<close> pixels, \<^verbatim>\<open>spotted\<close>
  leaves exactly one LED lit, the one at index
  \<open>(north + int(LED_COUNT * bearing / 360)) mod LED_COUNT\<close>, where \<^verbatim>\<open>int\<close> truncates;
  every other LED is dark.
\<close>

theorem ring_cell:
  assumes "length (strip s) = LED_COUNT"
  shows "leds (spotted bearing trak s)
           = (replicate LED_COUNT (0, 0, 0))
               [nat ((north s + py_int (real LED_COUNT * bearing / 360)) mod int LED_COUNT)
                  := (0, led_intensity, 0)]
       \<and> nat ((north s + py_int (real LED_COUNT * bearing / 360)) mod int LED_COUNT) < LED_COUNT
       \<and> (\<forall>i < LED_COUNT. (leds (spotted bearing trak s) ! i \<noteq> (0, 0, 0))
              = (int i = (north s + py_int (real LED_COUNT * bearing / 360)) mod int LED_COUNT))"
proof -
  define c where "c = nat ((north s + py_int (real LED_COUNT * bearing / 360)) mod int LED_COUNT)"
  have cell: "spotted_cell (north s) bearing = int c"
    using spotted_cell_range [of "north s" bearing] by (simp add: c_def spotted_cell_def)
  have c: "c < LED_COUNT"
    using spotted_cell_range [of "north s" bearing] by (simp add: cell)
  have l: "leds (spotted bearing trak s) = (replicate LED_COUNT (0, 0, 0))[c := (0, led_intensity, 0)]"
    using leds_spotted(1) [OF assms, of bearing trak] by (simp add: cell)
  have "\<forall>i < LED_COUNT. (leds (spotted bearing trak s) ! i \<noteq> (0, 0, 0)) = (i = c)"
    using c by (auto simp add: l nth_list_update led_intensity_def)
  then have "\<forall>i < LED_COUNT. (leds (spotted bearing trak s) ! i \<noteq> (0, 0, 0)) = (int i = int c)"
    by simp
  with l c show ?thesis
    unfolding c_def [symmetric] cell [symmetric, unfolded spotted_cell_def] 
    by (simp add: cell [unfolded spotted_cell_def])
qed

theorem ring_cell_witness:
  "leds (spotted 200 90 (initial 3 0 Map.empty)) ! 16 = (0, led_intensity, 0)
   \<and> leds (spotted 200 90 (initial 3 0 Map.empty)) ! 15 = (0, 0, 0)"
  using ring_cell [of "initial 3 0 Map.empty" 200 90]
  by (simp add: initial_def py_int_def LED_COUNT_def)

text \<open>
  C3 as stated rounds to the nearest cell. The code truncates: with north at cell \<open>0\<close>
  and a bearing of \<open>11.25\<close> degrees, \<open>24 * 11.25 / 360 = 0.75\<close> rounds to cell \<open>1\<close>, and
  \<^verbatim>\<open>spotted\<close> lights cell \<open>0\<close> and leaves cell \<open>1\<close> dark.
\<close>

theorem ring_cell_truncates:
  "nat ((0 + round (real LED_COUNT * (45 / 4) / 360)) mod int LED_COUNT) = 1
   \<and> leds (spotted (45 / 4) 0 (initial 0 0 Map.empty)) ! 1 = (0, 0, 0)
   \<and> leds (spotted (45 / 4) 0 (initial 0 0 Map.empty)) ! 0 = (0, led_intensity, 0)"
  using leds_spotted(1) [of "initial 0 0 Map.empty" "45 / 4" 0]
  by (simp add: initial_def spotted_cell_def py_int_def LED_COUNT_def round_def)

text \<open>
  C4, as the code has it. \<^verbatim>\<open>save_position\<close> opens \<^verbatim>\<open>planes_position.py\<close> for writing,
  which empties it, and then writes the two lines \<^verbatim>\<open>north = <north>\<close> and
  \<^verbatim>\<open>position = <position>\<close> into that same file; no other file is touched. Reading
  the file back gives both integers. \<^verbatim>\<open>spotted\<close> saves after \<^verbatim>\<open>plane_track\<close>, so the
  file then holds the position the move reached, and start-up saves after calibration.
\<close>

theorem save_position_in_place:
  "save_position_steps s =
     [s\<lparr>files := (files s)(position_file \<mapsto> [])\<rparr>,
      s\<lparr>files := (files s)(position_file \<mapsto>
           ''north = '' @ fmt_d (north s) @ [newline]
           @ ''position = '' @ fmt_d (position s) @ [newline])\<rparr>]
   \<and> save_position s = last (save_position_steps s)
   \<and> import_position (files (save_position s)) = Some (north s, position s)
   \<and> import_position (files (spotted bearing trak s))
       = Some (north s, position (plane_track trak s))
   \<and> (north s = - 1 \<and> startup r1 r2 s = Some s' \<longrightarrow>
        import_position (files s') = Some (north s', position s'))"
proof -
  have "save_position_steps s =
     [s\<lparr>files := (files s)(position_file \<mapsto> [])\<rparr>,
      s\<lparr>files := (files s)(position_file \<mapsto>
           ''north = '' @ fmt_d (north s) @ [newline]
           @ ''position = '' @ fmt_d (position s) @ [newline])\<rparr>]"
    by (simp add: save_position_steps_eq position_lines_def)
  moreover have "save_position s = last (save_position_steps s)"
    by (rule save_position_def)
  moreover have "import_position (files (save_position s)) = Some (north s, position s)"
    by (rule import_position_save)
  moreover have "import_position (files (spotted bearing trak s))
       = Some (north s, position (plane_track trak s))"
    by (rule spotted_saved)
  moreover have "north s = - 1 \<and> startup r1 r2 s = Some s' \<longrightarrow>
        import_position (files s') = Some (north s', position s')"
    using startup_calibrated [of s r1 r2 s'] by simp
  ultimately show ?thesis by blast
qed

theorem save_position_in_place_witness:
  "\<exists>s'. startup [True] [True] (initial (- 1) 0 Map.empty) = Some s'
        \<and> import_position (files s') = Some (north s', position s')"
proof -
  have "startup [True] [True] (initial (- 1) 0 Map.empty) \<noteq> None"
    by (simp add: startup_None initial_def)
  then obtain s' where s': "startup [True] [True] (initial (- 1) 0 Map.empty) = Some s'"
    by blast
  with save_position_in_place [of "initial (- 1) 0 Map.empty" _ _ "[True]" "[True]" s']
  show ?thesis by (simp add: initial_def)
qed

text \<open>
  C4 as stated has the file written to a temporary place and moved over the old one,
  so that a reader never sees a partial file. The code writes in place: while
  \<^verbatim>\<open>save_position\<close> runs on a file system that holds the saved position and nothing
  else, no second file appears, and after the first step the saved file is empty.
\<close>

theorem save_position_truncates_first:
  "map (\<lambda>s. (dom (files s), files s position_file))
     (save_position_steps
        (initial 3 5 [position_file \<mapsto> ''north = 3'' @ [newline] @ ''position = 4'' @ [newline]]))
   = [({position_file}, Some []),
      ({position_file}, Some (''north = 3'' @ [newline] @ ''position = 5'' @ [newline]))]"
  by (simp add: save_position_steps_eq position_lines_def initial_def fmt_d_examples)

text \<open>
  C5, as the code has it. For a position in \<open>[0, revolution)\<close>, a bearing in \<open>[0, 360)\<close>
  and an accumulated error in \<open>(-1, 1)\<close>: after the first call of \<^verbatim>\<open>plane_track\<close> and
  after every later call with the same bearing the position is within one step of
  \<open>trak * steps_per_degree\<close> modulo \<open>revolution\<close>, and every later call makes no step or
  one step.
\<close>

theorem tracking_settles:
  assumes "0 \<le> position s" and "position s < revolution"
    and "0 \<le> trak" and "trak < 360"
    and "\<bar>accumulated_error s\<bar> < 1"
  shows "near_target trak (position ((plane_track trak ^^ Suc n) s))
       \<and> 0 \<le> fst (shortest (track_delta trak ((plane_track trak ^^ Suc n) s)))
       \<and> fst (shortest (track_delta trak ((plane_track trak ^^ Suc n) s))) \<le> 1"
proof -
  have "tracking trak (plane_track trak s)"
    using assms by (rule tracking_first)
  with assms(3,4) have "tracking trak ((plane_track trak ^^ n) (plane_track trak s))"
    by (rule tracking_funpow)
  then have inv: "tracking trak ((plane_track trak ^^ Suc n) s)"
    by (simp add: funpow_swap1)
  then have "near_target trak (position ((plane_track trak ^^ Suc n) s))"
    by (simp add: tracking_def)
  moreover from assms(3,4) inv
  have "0 \<le> fst (shortest (track_delta trak ((plane_track trak ^^ Suc n) s)))
      \<and> fst (shortest (track_delta trak ((plane_track trak ^^ Suc n) s))) \<le> 1"
    by (rule tracking_one_step)
  ultimately show ?thesis by blast
qed

theorem tracking_settles_witness:
  "near_target 270 (position ((plane_track 270 ^^ Suc 3) (initial 0 5 Map.empty)))
   \<and> 0 \<le> fst (shortest (track_delta 270 ((plane_track 270 ^^ Suc 3) (initial 0 5 Map.empty))))
   \<and> fst (shortest (track_delta 270 ((plane_track 270 ^^ Suc 3) (initial 0 5 Map.empty)))) \<le> 1"
  using tracking_settles [of "initial 0 5 Map.empty" 270 3]
  by (simp add: initial_def revolution_def)

text \<open>
  C5 as stated also says that the position never oscillates. It does: with bearing
  \<open>1\<close> from position \<open>0\<close> and no accumulated error the target is \<open>5.66\<close> steps, the
  position is \<open>5\<close> after the first call, \<open>6\<close> after the second and \<open>5\<close> again after
  the sixth, since each call adds the same remainder to the accumulated error.
\<close>

theorem tracking_oscillates:
  "position ((plane_track 1 ^^ 1) (initial 0 0 Map.empty)) = 5
   \<and> position ((plane_track 1 ^^ 2) (initial 0 0 Map.empty)) = 6
   \<and> position ((plane_track 1 ^^ 6) (initial 0 0 Map.empty)) = 5"
proof -
  define s0 where "s0 = initial 0 0 Map.empty"
  define s1 where "s1 = plane_track 1 s0"
  define s2 where "s2 = plane_track 1 s1"
  define s3 where "s3 = plane_track 1 s2"
  define s4 where "s4 = plane_track 1 s3"
  define s5 where "s5 = plane_track 1 s4"
  define s6 where "s6 = plane_track 1 s5"
  have 0: "position s0 = 0 \<and> accumulated_error s0 = 0"
    by (simp add: s0_def initial_def)
  have 1: "position s1 = 5 \<and> accumulated_error s1 = 119 / 180"
    unfolding s1_def by (rule step_pos [of s0 0 0 5]) (simp_all add: 0 py_int_def)
  have 2: "position s2 = 6 \<and> accumulated_error s2 = 29 / 90"
    unfolding s2_def by (rule step_pos [of s1 5 "119 / 180" 1]) (simp_all add: 1 py_int_def)
  have 3: "position s3 = 6 \<and> accumulated_error s3 = - (1 / 60)"
    unfolding s3_def by (rule step_pos [of s2 6 "29 / 90" 0]) (simp_all add: 2 py_int_def)
  have 4: "position s4 = 6 \<and> accumulated_error s4 = - (16 / 45)"
    unfolding s4_def by (rule step_pos [of s3 6 "- (1 / 60)" 0]) (simp_all add: 3 py_int_def)
  have 5: "position s5 = 6 \<and> accumulated_error s5 = - (25 / 36)"
    unfolding s5_def by (rule step_pos [of s4 6 "- (16 / 45)" 0]) (simp_all add: 4 py_int_def)
  have 6: "position s6 = 5 \<and> accumulated_error s6 = - (1 / 30)"
    unfolding s6_def by (rule step_pos [of s5 6 "- (25 / 36)" "- 1"]) (simp_all add: 5 py_int_def)
  have "(plane_track 1 ^^ 1) (initial 0 0 Map.empty) = s1"
    "(plane_track 1 ^^ 2) (initial 0 0 Map.empty) = s2"
    "(plane_track 1 ^^ 6) (initial 0 0 Map.empty) = s6"
    by (simp_all add: eval_nat_numeral s0_def s1_def s2_def s3_def s4_def s5_def s6_def)
  with 1 2 6 show ?thesis by simp
qed

text \<open>
  C6. With no accumulated error, \<^verbatim>\<open>plane_track(180)\<close> from position \<open>0\<close> makes \<open>1019\<close>
  clockwise steps and ends at position \<open>1019\<close>; \<^verbatim>\<open>plane_track(0)\<close> from position
  \<open>1019\<close> makes \<open>1019\<close> steps the other way and ends at position \<open>0\<close>.
\<close>

theorem scenario_half_turn:
  assumes "position a = 0" and "accumulated_error a = 0"
    and "position b = 1019" and "accumulated_error b = 0"
  shows "shortest (track_delta 180 a) = (1019, True)
       \<and> position (plane_track 180 a) = 1019
       \<and> shortest (track_delta 0 b) = (1019, False)
       \<and> position (plane_track 0 b) = 0"
proof -
  have da: "track_delta 180 a = 1019"
    using track_delta_exact [of 180 a 1019] assms
    by (simp add: steps_per_degree_def revolution_def)
  have db: "track_delta 0 b = - 1019"
    using track_delta_exact [of 0 b "- 1019"] assms
    by (simp add: steps_per_degree_def revolution_def)
  have sa: "shortest 1019 = (1019, True)" and sb: "shortest (- 1019) = (1019, False)"
    by (simp_all add: shortest_def Let_def revolution_def)
  have pa: "position (plane_track 180 a) = 1019"
    using assms by (simp add: plane_track_parts da sa position_plane_rotate revolution_def)
  have pb: "position (plane_track 0 b) = 0"
    using assms by (simp add: plane_track_parts db sb position_plane_rotate revolution_def)
  show ?thesis by (simp add: da db sa sb pa pb)
qed

theorem scenario_half_turn_witness:
  "shortest (track_delta 180 (initial 0 0 Map.empty)) = (1019, True)
   \<and> position (plane_track 180 (initial 0 0 Map.empty)) = 1019
   \<and> shortest (track_delta 0 (initial 0 1019 Map.empty)) = (1019, False)
   \<and> position (plane_track 0 (initial 0 1019 Map.empty)) = 0"
  using scenario_half_turn [of "initial 0 0 Map.empty" "initial 0 1019 Map.empty"]
  by (simp add: initial_def)

text \<open>
  C7, as the code has it. From a position in \<open>[0, revolution)\<close>: \<^verbatim>\<open>motor_step\<close> moves
  the position by \<open>+1\<close> (clockwise) or \<open>-1\<close> and wraps it modulo \<open>revolution\<close>;
  \<^verbatim>\<open>motor_off\<close> and \<^verbatim>\<open>save_position\<close> leave it alone; \<^verbatim>\<open>plane_rotate\<close>,
  \<^verbatim>\<open>plane_track\<close> and \<^verbatim>\<open>spotted\<close> move it as their single steps do and keep it in
  \<open>[0, revolution)\<close>; and start-up sets it to \<open>0\<close> when it calibrates and leaves it
  alone otherwise.
\<close>

theorem position_in_range:
  assumes "0 \<le> position s" and "position s < revolution"
  shows "position (motor_step clockwise s)
           = (if clockwise then position s + 1 else position s - 1) mod revolution
       \<and> 0 \<le> position (motor_step clockwise s) \<and> position (motor_step clockwise s) < revolution
       \<and> position (motor_off s) = position s
       \<and> position (save_position s) = position s
       \<and> position (plane_rotate count clockwise s)
           = position ((motor_step clockwise ^^ nat count) s)
       \<and> 0 \<le> position (plane_rotate count clockwise s)
       \<and> position (plane_rotate count clockwise s) < revolution
       \<and> position (plane_track trak s)
           = position ((motor_step (snd (shortest (track_delta trak s)))
                          ^^ nat (fst (shortest (track_delta trak s)))) s)
       \<and> 0 \<le> position (plane_track trak s) \<and> position (plane_track trak s) < revolution
       \<and> position (spotted bearing trak s) = position (plane_track trak s)
       \<and> (startup r1 r2 s = Some s' \<longrightarrow> position s' = (if north s = - 1 then 0 else position s))"
proof -
  have "position (motor_step clockwise s)
           = (if clockwise then position s + 1 else position s - 1) mod revolution"
    by (rule position_motor_step)
  moreover have "0 \<le> position (motor_step clockwise s) \<and> position (motor_step clockwise s) < revolution"
    using position_mod_range by (simp add: position_motor_step)
  moreover have "position (motor_off s) = position s"
    by (rule position_motor_off)
  moreover have "position (save_position s) = position s"
    by (simp add: save_position_eq)
  moreover have "position (plane_rotate count clockwise s)
           = position ((motor_step clockwise ^^ nat count) s)"
    by (rule position_plane_rotate_steps)
  moreover have "0 \<le> position (plane_rotate count clockwise s)
       \<and> position (plane_rotate count clockwise s) < revolution"
    using assms by (rule position_plane_rotate_range)
  moreover have "position (plane_track trak s)
           = position ((motor_step (snd (shortest (track_delta trak s)))
                          ^^ nat (fst (shortest (track_delta trak s)))) s)"
    by (rule position_plane_track_steps)
  moreover have "0 \<le> position (plane_track trak s) \<and> position (plane_track trak s) < revolution"
    using assms by (rule position_plane_track_range)
  moreover have "position (spotted bearing trak s) = position (plane_track trak s)"
    by (rule position_spotted)
  moreover have "startup r1 r2 s = Some s' \<longrightarrow> position s' = (if north s = - 1 then 0 else position s)"
    using position_startup by blast
  ultimately show ?thesis by blast
qed

theorem position_in_range_witness:
  "position (motor_step False (initial 0 0 Map.empty)) = 2037
   \<and> position (motor_step True (initial 0 2037 Map.empty)) = 0
   \<and> 0 \<le> position (plane_track 270 (initial 0 5 Map.empty))
   \<and> position (plane_track 270 (initial 0 5 Map.empty)) < revolution"
proof -
  have r: "0 \<le> position (initial 0 p Map.empty) \<and> position (initial 0 p Map.empty) = p" if "0 \<le> p" for p
    using that by (simp add: initial_def)
  have "position (motor_step False (initial 0 0 Map.empty)) = 2037"
    using position_in_range [of "initial 0 0 Map.empty" False 0 0 0 "[]" "[]" "initial 0 0 Map.empty"]
    by (simp add: r revolution_def)
  moreover have "position (motor_step True (initial 0 2037 Map.empty)) = 0"
    using position_in_range [of "initial 0 2037 Map.empty" True 0 0 0 "[]" "[]" "initial 0 0 Map.empty"]
    by (simp add: r revolution_def)
  moreover have "0 \<le> position (plane_track 270 (initial 0 5 Map.empty))
      \<and> position (plane_track 270 (initial 0 5 Map.empty)) < revolution"
    using position_in_range [of "initial 0 5 Map.empty" True 0 270 0 "[]" "[]" "initial 0 0 Map.empty"]
    by (simp add: r revolution_def)
  ultimately show ?thesis by simp
qed

text \<open>
  C7 as stated has the position changed by single steps only. Start-up with
  \<^verbatim>\<open>north = -1\<close> is the exception: when the button is read as pressed once during
  \<^verbatim>\<open>calibrate_plane\<close> the motor makes four clockwise steps from position \<open>0\<close>, which
  take the position to \<open>4\<close>, and the assignment \<^verbatim>\<open>position = 0\<close> then sets it to \<open>0\<close>.
\<close>

theorem startup_resets_position:
  "map_option (\<lambda>s. (coils s, position s)) (startup [True] [True, True] (initial (- 1) 0 Map.empty))
     = Some ([(False, True, True, False), (False, False, True, True), (True, False, False, True),
              (True, True, False, False), (False, False, False, False)], 0)
   \<and> position (rotate_loop 4 True (initial (- 1) 0 Map.empty)) = 4"
proof -
  have "position (rotate_loop 4 True (initial (- 1) 0 Map.empty)) = 4"
    by (simp add: position_rotate_loop initial_def revolution_def)
  moreover have "map_option (\<lambda>s. (coils s, position s)) (startup [True] [True, True] (initial (- 1) 0 Map.empty))
     = Some ([(False, True, True, False), (False, False, True, True), (True, False, False, True),
              (True, True, False, False), (False, False, False, False)], 0)"
    by (rule startup_one_press) (simp_all add: initial_def)
  ultimately show ?thesis by simp
qed

text \<open>
  C8. One call of \<^verbatim>\<open>motor_step\<close> moves the phase index to \<open>(current_step + 1) mod 4\<close>
  when clockwise and to \<open>(current_step - 1) mod 4\<close> otherwise, keeps it in \<open>[0, 4)\<close>, and
  energises the coils with the entry of the four-phase sequence \<open>(1,1,0,0)\<close>,
  \<open>(0,1,1,0)\<close>, \<open>(0,0,1,1)\<close>, \<open>(1,0,0,1)\<close> at the new index.
\<close>

theorem motor_step_phase:
  "current_step (motor_step clockwise s)
     = (if clockwise then current_step s + 1 else current_step s - 1) mod 4
   \<and> 0 \<le> current_step (motor_step clockwise s) \<and> current_step (motor_step clockwise s) < 4
   \<and> coils (motor_step clockwise s)
     = coils s @ [[(True, True, False, False), (False, True, True, False),
                   (False, False, True, True), (True, False, False, True)]
                  ! nat (current_step (motor_step clockwise s))]"
proof -
  define c where "c = (if clockwise then current_step s + 1 else current_step s - 1) mod 4"
  have c: "current_step (motor_step clockwise s) = c"
    by (simp add: current_step_motor_step steps_def c_def)
  have "0 \<le> c" "c < 4" by (simp_all add: c_def)
  then consider "c = 0" | "c = 1" | "c = 2" | "c = 3" by linarith
  then have "coils (motor_step clockwise s)
     = coils s @ [[(True, True, False, False), (False, True, True, False),
                   (False, False, True, True), (True, False, False, True)] ! nat c]"
    by cases (simp_all add: motor_step_def motor_set_coils_def Let_def steps_def seq_def c_def [symmetric])
  with c \<open>0 \<le> c\<close> \<open>c < 4\<close> show ?thesis by (simp add: c_def)
qed

text \<open>
  C9. At start-up, when \<^verbatim>\<open>north\<close> is not \<open>-1\<close> nothing is done: the state is returned
  as it is, whatever the button does. When \<^verbatim>\<open>north\<close> is \<open>-1\<close> both calibration
  procedures run (start-up waits for the button, and returns only when it is pressed
  in each of them); when they have returned, \<^verbatim>\<open>north\<close> is the chosen cell in
  \<open>[0, LED_COUNT)\<close>, the position is \<open>0\<close>, both are in the saved file, and a program
  started from that file skips the calibration.
\<close>

theorem startup_calibration:
  "(north s \<noteq> - 1 \<longrightarrow> startup r1 r2 s = Some s)
   \<and> (north s = - 1 \<longrightarrow> (startup r1 r2 s = None) = (True \<notin> set r1 \<or> True \<notin> set r2))
   \<and> (north s = - 1 \<and> startup r1 r2 s = Some s' \<longrightarrow>
        (\<exists>n s1 s2. calibrate_strip r1 s = Some (n, s1)
           \<and> calibrate_plane r2 (s1\<lparr>north := n\<rparr>) = Some s2
           \<and> s' = save_position (s2\<lparr>position := 0\<rparr>))
        \<and> 0 \<le> north s' \<and> north s' < int LED_COUNT \<and> position s' = 0
        \<and> import_position (files s') = Some (north s', 0)
        \<and> boot (files s') = Some (initial (north s') 0 (files s'))
        \<and> startup q1 q2 (initial (north s') 0 (files s')) = Some (initial (north s') 0 (files s')))"
proof (intro conjI impI)
  assume "north s \<noteq> - 1"
  then show "startup r1 r2 s = Some s" by (rule startup_skip)
next
  assume "north s = - 1"
  then show "(startup r1 r2 s = None) = (True \<notin> set r1 \<or> True \<notin> set r2)"
    by (rule startup_None)
next
  assume a: "north s = - 1 \<and> startup r1 r2 s = Some s'"
  then have n: "north s = - 1" and st: "startup r1 r2 s = Some s'" by simp_all
  note cal = startup_calibrated [OF n st]
  show "\<exists>n s1 s2. calibrate_strip r1 s = Some (n, s1)
           \<and> calibrate_plane r2 (s1\<lparr>north := n\<rparr>) = Some s2
           \<and> s' = save_position (s2\<lparr>position := 0\<rparr>)"
    using n st by (rule startup_runs)
  show "0 \<le> north s'" "north s' < int LED_COUNT" "position s' = 0"
    "import_position (files s') = Some (north s', 0)"
    using cal by simp_all
  show "boot (files s') = Some (initial (north s') 0 (files s'))"
    using cal by (simp add: boot_def)
  show "startup q1 q2 (initial (north s') 0 (files s')) = Some (initial (north s') 0 (files s'))"
    using cal by (intro startup_skip) (simp add: initial_def)
qed

theorem startup_calibration_witness:
  "startup [] [] (initial 7 100 Map.empty) = Some (initial 7 100 Map.empty)
   \<and> startup [] [] (initial (- 1) 0 Map.empty) = None
   \<and> (\<exists>s'. startup [True, True] [True] (initial (- 1) 0 Map.empty) = Some s'
         \<and> 0 \<le> north s' \<and> north s' < int LED_COUNT \<and> position s' = 0
         \<and> import_position (files s') = Some (north s', 0)
         \<and> startup [] [] (initial (north s') 0 (files s')) = Some (initial (north s') 0 (files s')))"
proof -
  have 1: "startup [] [] (initial 7 100 Map.empty) = Some (initial 7 100 Map.empty)"
    using startup_calibration [of "initial 7 100 Map.empty" "[]" "[]"]
    by (simp add: initial_def)
  have 2: "startup [] [] (initial (- 1) 0 Map.empty) = None"
    using startup_calibration [of "initial (- 1) 0 Map.empty" "[]" "[]"]
    by (simp add: initial_def)
  have "startup [True, True] [True] (initial (- 1) 0 Map.empty) \<noteq> None"
    using startup_calibration [of "initial (- 1) 0 Map.empty" "[True, True]" "[True]"]
    by (simp add: initial_def)
  then obtain s' where s': "startup [True, True] [True] (initial (- 1) 0 Map.empty) = Some s'"
    by blast
  have "0 \<le> north s' \<and> north s' < int LED_COUNT \<and> position s' = 0
         \<and> import_position (files s') = Some (north s', 0)
         \<and> startup [] [] (initial (north s') 0 (files s')) = Some (initial (north s') 0 (files s'))"
    using startup_calibration [of "initial (- 1) 0 Map.empty" "[True, True]" "[True]" s' "[]" "[]"] s'
    by (simp add: initial_def)
  with 1 2 s' show ?thesis by blast
qed

text \<open>
  C10, as the code has it. From a position in \<open>[0, revolution)\<close>: when the signed
  step count computed before the flip is at most \<open>revolution\<close> in magnitude, as it is
  for every bearing in \<open>[0, 360)\<close> and accumulated error in \<open>(-1, 1)\<close>, going the other
  way round changes the path and not the destination, and the position after
  \<^verbatim>\<open>plane_track\<close> is the starting position plus that count modulo \<open>revolution\<close>. When
  the count is larger in magnitude than \<open>revolution\<close> the motor does not move.
\<close>

theorem flip_keeps_destination:
  assumes "0 \<le> position s" and "position s < revolution"
  shows "(0 \<le> trak \<and> trak < 360 \<and> \<bar>accumulated_error s\<bar> < 1
            \<longrightarrow> \<bar>track_delta trak s\<bar> \<le> revolution)
       \<and> (\<bar>track_delta trak s\<bar> \<le> revolution
            \<longrightarrow> position (plane_track trak s) = (position s + track_delta trak s) mod revolution)
       \<and> (\<bar>track_delta trak s\<bar> > revolution
            \<longrightarrow> position (plane_track trak s) = position s)"
proof (intro conjI impI)
  assume "0 \<le> trak \<and> trak < 360 \<and> \<bar>accumulated_error s\<bar> < 1"
  with assms show "\<bar>track_delta trak s\<bar> \<le> revolution"
    by (simp add: track_delta_bound)
next
  assume "\<bar>track_delta trak s\<bar> \<le> revolution"
  with assms show "position (plane_track trak s) = (position s + track_delta trak s) mod revolution"
    by (rule position_plane_track)
next
  assume "\<bar>track_delta trak s\<bar> > revolution"
  then show "position (plane_track trak s) = position s"
    by (rule position_plane_track_beyond)
qed

theorem flip_keeps_destination_witness:
  "position (plane_track 270 (initial 0 5 Map.empty))
     = (position (initial 0 5 Map.empty) + track_delta 270 (initial 0 5 Map.empty)) mod revolution
   \<and> track_delta 270 (initial 0 5 Map.empty) = 1523
   \<and> position (plane_track 270 (initial 0 5 Map.empty)) = 1528"
proof -
  have r: "0 \<le> position (initial 0 5 Map.empty)" "position (initial 0 5 Map.empty) < revolution"
    by (simp_all add: initial_def revolution_def)
  have d: "track_delta 270 (initial 0 5 Map.empty) = 1523"
    by (simp add: track_delta_def initial_def steps_per_degree_def revolution_def py_int_def Let_def)
  from flip_keeps_destination [OF r, of 270] d
  have "position (plane_track 270 (initial 0 5 Map.empty))
     = (position (initial 0 5 Map.empty) + track_delta 270 (initial 0 5 Map.empty)) mod revolution"
    by (simp add: revolution_def)
  moreover have "position (initial 0 5 Map.empty) = 5"
    by (simp add: initial_def)
  ultimately show ?thesis by (simp add: d revolution_def)
qed

text \<open>
  C10 as stated holds for every signed step count. It fails beyond one revolution:
  with a bearing of \<open>540\<close> degrees from position \<open>0\<close> the count is \<open>3057\<close>, the flip
  turns it into \<open>2038 - 3057 = -1019\<close> steps, \<^verbatim>\<open>range\<close> of a negative number is empty,
  and the position stays \<open>0\<close>, while \<open>(0 + 3057) mod 2038\<close> is \<open>1019\<close>.
\<close>

theorem flip_beyond_revolution:
  "track_delta 540 (initial 0 0 Map.empty) = 3057
   \<and> shortest (track_delta 540 (initial 0 0 Map.empty)) = (- 1019, False)
   \<and> position (plane_track 540 (initial 0 0 Map.empty)) = 0
   \<and> (position (initial 0 0 Map.empty) + track_delta 540 (initial 0 0 Map.empty)) mod revolution = 1019"
proof -
  have d: "track_delta 540 (initial 0 0 Map.empty) = 3057"
    by (simp add: track_delta_def initial_def steps_per_degree_def revolution_def py_int_def Let_def)
  have sh: "shortest 3057 = (- 1019, False)"
    by (simp add: shortest_def Let_def revolution_def)
  have p0: "position (initial 0 0 Map.empty) = 0"
    by (simp add: initial_def)
  have "position (plane_track 540 (initial 0 0 Map.empty)) = position (initial 0 0 Map.empty)"
    by (rule position_plane_track_beyond) (simp add: d revolution_def)
  then show ?thesis by (simp add: d sh p0 revolution_def)
qed

end
